theory Spec2Isabelle
  imports Main
begin

section \<open>Strings and exceptions\<close>

text \<open>
  The program is \<^verbatim>\<open>scrape_for_n8n.py\<close>. Python strings are modelled as \<open>string\<close>:
  one \<open>char\<close> per code point, for code points below 256; what the library decides from
  Unicode tables on a string that is not ASCII is a parameter of the model (\<open>pylib\<close>).
  Python integers are \<open>int\<close>.
  A raised exception is the \<open>Inl\<close> of a sum; the classes the program meets are listed
  here, and \<open>OtherError\<close> stands for an exception of any other class.
\<close>

datatype exc =
    ValueError
  | OverflowError
  | RuntimeError string
  | UsernameInvalidError string
  | UsernameNotOccupiedError string
  | ChannelPrivateError string
  | OtherError string

text \<open>The part of the Python runtime that the model takes as given.\<close>

record pylib =
  check_bracketed_host :: "string \<Rightarrow> bool"
    \<comment> \<open>\<^verbatim>\<open>urllib.parse._check_bracketed_host\<close> returns (True) or raises ValueError (False)\<close>
  nfkc_netloc_ok :: "string \<Rightarrow> bool"
    \<comment> \<open>the NFKC test of \<^verbatim>\<open>urllib.parse._checknetloc\<close> on a network location that is not
        ASCII: returns (True) or raises ValueError (False)\<close>
  int_max_str_digits :: nat
    \<comment> \<open>\<^verbatim>\<open>sys.get_int_max_str_digits()\<close>: 4300 by default, 0 when the limit is off\<close>
  isoformat :: "int \<Rightarrow> string"
    \<comment> \<open>\<^verbatim>\<open>datetime.isoformat\<close> of a timestamp\<close>
  repr_str :: "string \<Rightarrow> string"
    \<comment> \<open>\<^verbatim>\<open>repr\<close> of a string\<close>

section \<open>String methods\<close>

text \<open>\<^verbatim>\<open>str.isspace\<close> for one code point below 256.\<close>

definition py_isspace :: "char \<Rightarrow> bool" where
  "py_isspace c =
     (let n = (of_char c :: nat)
      in (9 \<le> n \<and> n \<le> 13) \<or> (28 \<le> n \<and> n \<le> 32) \<or> n = 133 \<or> n = 160)"

text \<open>\<^verbatim>\<open>str.strip()\<close>: whitespace removed at both ends.\<close>

definition strip :: "string \<Rightarrow> string" where
  "strip s = rev (dropWhile py_isspace (rev (dropWhile py_isspace s)))"

text \<open>\<^verbatim>\<open>s.startswith(p)\<close>\<close>

definition startswith :: "string \<Rightarrow> string \<Rightarrow> bool" where
  "startswith s p = (take (length p) s = p)"

text \<open>\<^verbatim>\<open>s.find(c)\<close>, \<^verbatim>\<open>s.find(c, k)\<close> and \<^verbatim>\<open>s.rfind(c)\<close> for a one-character needle.\<close>

definition py_find :: "char \<Rightarrow> string \<Rightarrow> int" where
  "py_find c s =
     (if c \<in> set s then int (length (takeWhile (\<lambda>x. x \<noteq> c) s)) else - 1)"

definition py_find_from :: "char \<Rightarrow> string \<Rightarrow> nat \<Rightarrow> int" where
  "py_find_from c s k =
     (if c \<in> set (drop k s)
      then int (k + length (takeWhile (\<lambda>x. x \<noteq> c) (drop k s))) else - 1)"

definition py_rfind :: "char \<Rightarrow> string \<Rightarrow> int" where
  "py_rfind c s =
     (if c \<in> set s
      then int (length s - 1 - length (takeWhile (\<lambda>x. x \<noteq> c) (rev s))) else - 1)"

text \<open>The slices \<^verbatim>\<open>s[:i]\<close> and \<^verbatim>\<open>s[i:]\<close>; a negative index counts from the end.\<close>

definition slice_to :: "string \<Rightarrow> int \<Rightarrow> string" where
  "slice_to s i = (if i < 0 then take (length s - nat (- i)) s else take (nat i) s)"

definition slice_from :: "string \<Rightarrow> int \<Rightarrow> string" where
  "slice_from s i = (if i < 0 then drop (length s - nat (- i)) s else drop (nat i) s)"

text \<open>\<^verbatim>\<open>s.split(c, 1)\<close> when \<^verbatim>\<open>c in s\<close>: the text before the first \<open>c\<close> and the text after it.\<close>

definition split_once :: "char \<Rightarrow> string \<Rightarrow> string \<times> string" where
  "split_once c s = (takeWhile (\<lambda>x. x \<noteq> c) s, drop 1 (dropWhile (\<lambda>x. x \<noteq> c) s))"

text \<open>\<^verbatim>\<open>s.partition(c)[0]\<close> and \<^verbatim>\<open>s.partition(c)[2]\<close>.\<close>

definition partition_before :: "char \<Rightarrow> string \<Rightarrow> string" where
  "partition_before c s = takeWhile (\<lambda>x. x \<noteq> c) s"

definition partition_after :: "char \<Rightarrow> string \<Rightarrow> string" where
  "partition_after c s = drop 1 (dropWhile (\<lambda>x. x \<noteq> c) s)"

text \<open>\<^verbatim>\<open>s.split(c)\<close>: every field between separators, empty fields included.\<close>

fun split_on :: "char \<Rightarrow> string \<Rightarrow> string list" where
  "split_on c [] = [[]]"
| "split_on c (x # xs) =
     (if x = c then [] # split_on c xs
      else (case split_on c xs of
              [] \<Rightarrow> [[x]]
            | f # fs \<Rightarrow> (x # f) # fs))"

section \<open>\<^verbatim>\<open>urllib.parse.urlparse\<close>\<close>

text \<open>
  The model follows \<^verbatim>\<open>urlsplit\<close> and \<^verbatim>\<open>urlparse\<close> of CPython 3.11 for a \<^verbatim>\<open>str\<close> argument
  and the default arguments \<^verbatim>\<open>scheme=''\<close>, \<^verbatim>\<open>allow_fragments=True\<close>.
  \<^verbatim>\<open>urlsplit\<close> raises ValueError in three places: on an unmatched bracket in the network
  location, on a bracketed host that \<^verbatim>\<open>_check_bracketed_host\<close> refuses, and in
  \<^verbatim>\<open>_checknetloc\<close>, when the NFKC normal form of a network location that is not ASCII brings
  in one of \<^verbatim>\<open>/?#@:\<close> (as the code point U+2100 does).
\<close>

record parse_result =
  scheme :: string
  netloc :: string
  path :: string
  params :: string
  query :: string
  fragment :: string

definition uses_params :: "string list" where
  "uses_params = ['''', ''ftp'', ''hdl'', ''prospero'', ''http'', ''imap'',
                  ''https'', ''shttp'', ''rtsp'', ''rtsps'', ''rtspu'', ''sip'',
                  ''sips'', ''mms'', ''sftp'', ''tel'']"

definition scheme_chars :: string where
  "scheme_chars = ''abcdefghijklmnopqrstuvwxyzABCDEFGHIJKLMNOPQRSTUVWXYZ0123456789+-.''"

definition is_ascii_alpha :: "char \<Rightarrow> bool" where
  "is_ascii_alpha c =
     (let n = (of_char c :: nat) in (65 \<le> n \<and> n \<le> 90) \<or> (97 \<le> n \<and> n \<le> 122))"

definition ascii_lower :: "char \<Rightarrow> char" where
  "ascii_lower c =
     (let n = (of_char c :: nat) in if 65 \<le> n \<and> n \<le> 90 then char_of (n + 32) else c)"

text \<open>\<^verbatim>\<open>url.lstrip(_WHATWG_C0_CONTROL_OR_SPACE)\<close>: code points 0 to 32 removed on the left.\<close>

definition lstrip_c0 :: "string \<Rightarrow> string" where
  "lstrip_c0 s = dropWhile (\<lambda>c. (of_char c :: nat) \<le> 32) s"

text \<open>The loop over \<^verbatim>\<open>_UNSAFE_URL_BYTES_TO_REMOVE\<close>: tab, CR and LF removed everywhere.\<close>

definition remove_unsafe :: "string \<Rightarrow> string" where
  "remove_unsafe s = filter (\<lambda>c. c \<noteq> CHR 0x09 \<and> c \<noteq> CHR 0x0D \<and> c \<noteq> CHR 0x0A) s"

text \<open>The scheme test of \<^verbatim>\<open>urlsplit\<close>: the pair (scheme, remaining url).\<close>

definition split_scheme :: "string \<Rightarrow> string \<times> string" where
  "split_scheme url =
     (let i = py_find (CHR '':'') url
      in if 0 < i \<and> is_ascii_alpha (hd url) \<and>
            list_all (\<lambda>c. c \<in> set scheme_chars) (slice_to url i)
         then (map ascii_lower (slice_to url i), slice_from url (i + 1))
         else ('''', url))"

text \<open>\<^verbatim>\<open>_splitnetloc(url, 2)\<close>: the network location ends at the first of \<^verbatim>\<open>/?#\<close>.\<close>

definition is_netloc_delim :: "char \<Rightarrow> bool" where
  "is_netloc_delim c = (c = CHR ''/'' \<or> c = CHR ''?'' \<or> c = CHR ''#'')"

definition splitnetloc :: "string \<Rightarrow> string \<times> string" where
  "splitnetloc url =
     (takeWhile (\<lambda>c. \<not> is_netloc_delim c) (drop 2 url),
      dropWhile (\<lambda>c. \<not> is_netloc_delim c) (drop 2 url))"

text \<open>The bracket checks on the network location; \<open>None\<close> when nothing is raised.\<close>

definition check_brackets :: "pylib \<Rightarrow> string \<Rightarrow> exc option" where
  "check_brackets lib nl =
     (let opn = (CHR ''['' \<in> set nl); cls = (CHR '']'' \<in> set nl)
      in if (opn \<and> \<not> cls) \<or> (cls \<and> \<not> opn) then Some ValueError
         else if opn \<and> cls then
           (if check_bracketed_host lib
                 (partition_before (CHR '']'') (partition_after (CHR ''['') nl))
            then None else Some ValueError)
         else None)"

text \<open>\<^verbatim>\<open>c.isascii()\<close>\<close>

definition is_ascii :: "char \<Rightarrow> bool" where
  "is_ascii c = ((of_char c :: nat) < 128)"

text \<open>
  \<^verbatim>\<open>_checknetloc(netloc)\<close>: nothing is raised for an empty or ASCII network location;
  otherwise the NFKC test decides. \<open>None\<close> when nothing is raised.
\<close>

definition checknetloc :: "pylib \<Rightarrow> string \<Rightarrow> exc option" where
  "checknetloc lib nl =
     (if nl = [] \<or> list_all is_ascii nl then None
      else if nfkc_netloc_ok lib nl then None else Some ValueError)"

text \<open>\<^verbatim>\<open>urlsplit\<close>: (scheme, netloc, url, query, fragment), or the exception raised.\<close>

definition urlsplit :: "pylib \<Rightarrow> string \<Rightarrow> exc + (string \<times> string \<times> string \<times> string \<times> string)" where
  "urlsplit lib url0 =
     (let url1 = remove_unsafe (lstrip_c0 url0);
          (sch, url2) = split_scheme url1;
          (nl, url3) = (if take 2 url2 = ''//'' then splitnetloc url2 else ('''', url2))
      in case (if take 2 url2 = ''//'' then check_brackets lib nl else None) of
           Some e \<Rightarrow> Inl e
         | None \<Rightarrow>
             (let (url4, frag) =
                    (if CHR ''#'' \<in> set url3 then split_once (CHR ''#'') url3 else (url3, ''''));
                  (url5, qry) =
                    (if CHR ''?'' \<in> set url4 then split_once (CHR ''?'') url4 else (url4, ''''))
              in case checknetloc lib nl of
                   Some e \<Rightarrow> Inl e
                 | None \<Rightarrow> Inr (sch, nl, url5, qry, frag)))"

text \<open>\<^verbatim>\<open>_splitparams\<close>\<close>

definition splitparams :: "string \<Rightarrow> string \<times> string" where
  "splitparams url =
     (if CHR ''/'' \<in> set url then
        (let i = py_find_from (CHR '';'') url (nat (py_rfind (CHR ''/'') url))
         in if i < 0 then (url, '''') else (slice_to url i, slice_from url (i + 1)))
      else
        (let i = py_find (CHR '';'') url
         in (slice_to url i, slice_from url (i + 1))))"

definition urlparse :: "pylib \<Rightarrow> string \<Rightarrow> exc + parse_result" where
  "urlparse lib url0 =
     (case urlsplit lib url0 of
        Inl e \<Rightarrow> Inl e
      | Inr (sch, nl, url, qry, frag) \<Rightarrow>
          (let (url', prm) =
                 (if sch \<in> set uses_params \<and> CHR '';'' \<in> set url
                  then splitparams url else (url, ''''))
           in Inr \<lparr>scheme = sch, netloc = nl, path = url', params = prm,
                    query = qry, fragment = frag\<rparr>))"

section \<open>\<^verbatim>\<open>int\<close> of a string\<close>

text \<open>
  \<^verbatim>\<open>int(s)\<close> in base 10, after CPython's \<^verbatim>\<open>PyLong_FromUnicodeObject\<close>: whitespace is
  skipped at both ends, one sign may come first, the digits may be separated by single
  underscores, and a digit count above the configured limit is refused.
  The whitespace \<^verbatim>\<open>int\<close> skips is tab to CR and the space, with the code points 133 and 160
  (which are first turned into spaces); 28 to 31 are not skipped.
\<close>

definition int_isspace :: "char \<Rightarrow> bool" where
  "int_isspace c =
     (let n = (of_char c :: nat) in (9 \<le> n \<and> n \<le> 13) \<or> n = 32 \<or> n = 133 \<or> n = 160)"

definition is_digit :: "char \<Rightarrow> bool" where
  "is_digit c = (let n = (of_char c :: nat) in 48 \<le> n \<and> n \<le> 57)"

definition digit_val :: "char \<Rightarrow> int" where
  "digit_val c = int (of_char c) - 48"

text \<open>Digits with single underscores between them: no underscore first, last or doubled.\<close>

fun underscores_ok :: "string \<Rightarrow> bool" where
  "underscores_ok [] = True"
| "underscores_ok [c] = (c \<noteq> CHR ''_'')"
| "underscores_ok (c # d # cs) =
     (if c = CHR ''_'' then d \<noteq> CHR ''_'' \<and> underscores_ok (d # cs)
      else underscores_ok (d # cs))"

definition digits_value :: "string \<Rightarrow> int" where
  "digits_value ds = foldl (\<lambda>a c. 10 * a + digit_val c) 0 ds"

definition py_int :: "pylib \<Rightarrow> string \<Rightarrow> exc + int" where
  "py_int lib s =
     (let t = dropWhile int_isspace s;
          neg = (take 1 t = ''-'');
          u = (if take 1 t = ''+'' \<or> take 1 t = ''-'' then drop 1 t else t);
          body = takeWhile (\<lambda>c. is_digit c \<or> c = CHR ''_'') u;
          rest = dropWhile (\<lambda>c. is_digit c \<or> c = CHR ''_'') u;
          ds = filter is_digit body
      in if take 1 body = ''_'' \<or> \<not> underscores_ok body \<or> ds = [] then Inl ValueError
         else if 640 < length ds \<and> 0 < int_max_str_digits lib
                 \<and> int_max_str_digits lib < length ds then Inl ValueError
         else if \<not> list_all int_isspace rest then Inl ValueError
         else Inr (if neg then - digits_value ds else digits_value ds))"

section \<open>The identifier resolver\<close>

text \<open>
  \<^verbatim>\<open>parse_chat_identifier(raw_identifier, topic_id_env=None)\<close>. \<open>None\<close> is Python's \<^verbatim>\<open>None\<close>.
  \<^verbatim>\<open>urlparse\<close> is called outside the \<^verbatim>\<open>try\<close>, so what it raises leaves the function;
  the \<^verbatim>\<open>except ValueError: pass\<close> around \<^verbatim>\<open>int(parts[1])\<close> keeps the topic id as it was.
\<close>

definition is_url :: "string \<Rightarrow> bool" where
  "is_url s = (startswith s ''http://'' \<or> startswith s ''https://'')"

definition path_parts :: "string \<Rightarrow> string list" where
  "path_parts p = filter (\<lambda>x. x \<noteq> []) (split_on (CHR ''/'') p)"

definition parse_chat_identifier ::
    "pylib \<Rightarrow> string \<Rightarrow> int option \<Rightarrow> exc + (string \<times> int option)" where
  "parse_chat_identifier lib raw_identifier topic_id_env =
     (let topic_id = topic_id_env;
          identifier = strip raw_identifier
      in if is_url identifier then
           (case urlparse lib identifier of
              Inl e \<Rightarrow> Inl e
            | Inr parsed \<Rightarrow>
                (let parts = path_parts (path parsed)
                 in if parts \<noteq> [] then
                      (let identifier = parts ! 0
                       in if 2 \<le> length parts \<and> topic_id = None then
                            (case py_int lib (parts ! 1) of
                               Inr n \<Rightarrow> Inr (identifier, Some n)
                             | Inl ValueError \<Rightarrow> Inr (identifier, topic_id)
                             | Inl e \<Rightarrow> Inl e)
                          else Inr (identifier, topic_id))
                    else Inr (identifier, topic_id)))
         else Inr (identifier, topic_id))"

text \<open>
  A runtime instance for evaluating the model on concrete inputs. Its bracketed-host check
  accepts the loopback address only, its NFKC test accepts every network location (as
  CPython does for code points below 256), and its \<^verbatim>\<open>isoformat\<close> is a placeholder.
\<close>

definition sample_lib :: pylib where
  "sample_lib =
     \<lparr>check_bracketed_host = (\<lambda>h. h = ''::1''),
      nfkc_netloc_ok = (\<lambda>nl. True),
      int_max_str_digits = 4300,
      isoformat = (\<lambda>t. ''T''),
      repr_str = (\<lambda>s. [CHR 0x27] @ s @ [CHR 0x27])\<rparr>"

section \<open>Messages and records\<close>

text \<open>
  What \<^verbatim>\<open>scrape\<close> reads of a Telethon \<^verbatim>\<open>Message\<close>. A timestamp is an \<open>int\<close>: the
  microseconds since 0001-01-01T00:00:00 UTC. \<open>sender\<close> is \<open>None\<close> when the message has
  no sender object, and \<open>Some u\<close> when it has one whose \<^verbatim>\<open>username\<close> attribute reads \<open>u\<close>
  (\<open>None\<close> when the attribute is missing or \<^verbatim>\<open>None\<close>).
\<close>

record tg_message =
  msg_id :: int
  date :: "int option"
  has_sender_id :: bool
  sender_id :: "int option"
  sender :: "string option option"
  message :: "string option"
  reply_to_msg_id :: "int option"
  action :: "string option"

text \<open>What the iterator yields: a \<^verbatim>\<open>Message\<close>, or an object of another class.\<close>

datatype item = NotMessage | Msg tg_message

text \<open>The values of a row, as \<^verbatim>\<open>json.dump\<close> tells them apart.\<close>

datatype pyval = PyNone | PyBool bool | PyInt int | PyStr string

type_synonym row = "(string \<times> pyval) list"

definition opt_int :: "int option \<Rightarrow> pyval" where
  "opt_int v = (case v of None \<Rightarrow> PyNone | Some n \<Rightarrow> PyInt n)"

definition opt_str :: "string option \<Rightarrow> pyval" where
  "opt_str v = (case v of None \<Rightarrow> PyNone | Some t \<Rightarrow> PyStr t)"

text \<open>The dict appended for a message \<open>msg\<close> whose \<^verbatim>\<open>date\<close> is \<open>d\<close>.\<close>

definition make_row :: "pylib \<Rightarrow> string \<Rightarrow> tg_message \<Rightarrow> int \<Rightarrow> row" where
  "make_row lib chat_identifier msg d =
     [(''chat_identifier'', PyStr chat_identifier),
      (''message_id'', PyInt (msg_id msg)),
      (''date'', PyStr (isoformat lib d)),
      (''sender_id'', if has_sender_id msg then opt_int (sender_id msg) else PyNone),
      (''sender_username'', (case sender msg of None \<Rightarrow> PyNone | Some u \<Rightarrow> opt_str u)),
      (''text'', PyStr (case message msg of
                          None \<Rightarrow> []
                        | Some t \<Rightarrow> if t = [] then [] else t)),
      (''reply_to_msg_id'', opt_int (reply_to_msg_id msg)),
      (''is_service'', PyInt (if action msg \<noteq> None then 1 else 0))]"

section \<open>The fetch loop\<close>

text \<open>
  The \<^verbatim>\<open>async for\<close> of \<^verbatim>\<open>scrape\<close> over the items the iterator yields. The result is the
  rows, the number of items taken from the iterator, and whether the loop left by \<^verbatim>\<open>break\<close>.
\<close>

definition took_one :: "row list \<times> nat \<times> bool \<Rightarrow> row list \<times> nat \<times> bool" where
  "took_one r = (case r of (rows, n, broke) \<Rightarrow> (rows, Suc n, broke))"

fun fetch_loop ::
    "pylib \<Rightarrow> string \<Rightarrow> int \<Rightarrow> item list \<Rightarrow> row list \<Rightarrow> row list \<times> nat \<times> bool" where
  "fetch_loop lib chat_identifier cutoff [] rows = (rows, 0, False)"
| "fetch_loop lib chat_identifier cutoff (NotMessage # its) rows =
     took_one (fetch_loop lib chat_identifier cutoff its rows)"
| "fetch_loop lib chat_identifier cutoff (Msg msg # its) rows =
     (case date msg of
        None \<Rightarrow> took_one (fetch_loop lib chat_identifier cutoff its rows)
      | Some d \<Rightarrow>
          if d < cutoff then (rows, 1, True)
          else took_one (fetch_loop lib chat_identifier cutoff its
                           (rows @ [make_row lib chat_identifier msg d])))"

section \<open>The client and \<^verbatim>\<open>scrape\<close>\<close>

text \<open>
  The Telethon client is the collaborator: each awaited call returns or raises.
  \<^verbatim>\<open>iter_messages\<close> yields a list of items and may then raise. \<open>'e\<close> is the type of
  entities.
\<close>

record 'e iter_request =
  req_entity :: 'e
  reverse :: bool
  reply_to :: "int option"

record 'e client =
  start :: "string option \<Rightarrow> exc option"
  get_entity :: "string \<Rightarrow> exc + 'e"
  iter_messages :: "'e iter_request \<Rightarrow> item list \<times> exc option"
  disconnect :: "exc option"

record args =
  chat :: string
  topic_id :: "int option"
  days :: int
  phone_or_token :: "string option"

text \<open>The calls made on the client and the final \<^verbatim>\<open>json.dump\<close>, in order.\<close>

datatype 'e event =
    EvStart "string option"
  | EvGetEntity string
  | EvIterMessages "'e iter_request"
  | EvConsumed nat
  | EvDisconnect
  | EvDump "row list"

text \<open>The classes named by the \<^verbatim>\<open>except\<close> clause.\<close>

fun is_resolution_error :: "exc \<Rightarrow> bool" where
  "is_resolution_error (UsernameInvalidError _) = True"
| "is_resolution_error (UsernameNotOccupiedError _) = True"
| "is_resolution_error (ChannelPrivateError _) = True"
| "is_resolution_error _ = False"

text \<open>\<^verbatim>\<open>str(e)\<close> of an exception that carries a message.\<close>

fun exc_str :: "exc \<Rightarrow> string" where
  "exc_str (RuntimeError m) = m"
| "exc_str (UsernameInvalidError m) = m"
| "exc_str (UsernameNotOccupiedError m) = m"
| "exc_str (ChannelPrivateError m) = m"
| "exc_str (OtherError m) = m"
| "exc_str _ = []"

definition access_error :: "pylib \<Rightarrow> string \<Rightarrow> exc \<Rightarrow> exc" where
  "access_error lib chat_identifier e =
     RuntimeError (''Unable to access chat '' @ repr_str lib chat_identifier @ '': '' @ exc_str e)"

text \<open>
  \<^verbatim>\<open>datetime.now(timezone.utc) - timedelta(days=args.days)\<close>: OverflowError when the day
  count is beyond 999999999 either way, or the result leaves the years 1 to 9999.
\<close>

definition compute_cutoff :: "int \<Rightarrow> int \<Rightarrow> exc + int" where
  "compute_cutoff now_utc d =
     (if d < - 999999999 \<or> 999999999 < d then Inl OverflowError
      else (let c = now_utc - d * 86400000000
            in if 0 \<le> c \<and> c < 3652059 * 86400000000 then Inr c else Inl OverflowError))"

text \<open>The keyword arguments of \<^verbatim>\<open>client.iter_messages(entity, reverse=False, **iter_kwargs)\<close>.\<close>

definition make_iter_request :: "'e \<Rightarrow> int option \<Rightarrow> 'e iter_request" where
  "make_iter_request entity topic = \<lparr>req_entity = entity, reverse = False, reply_to = topic\<rparr>"

text \<open>
  Telethon's meaning of \<^verbatim>\<open>reverse\<close>: messages come newest to oldest by default, and
  oldest to newest when \<^verbatim>\<open>reverse=True\<close>.
\<close>

datatype pagination_order = NewestFirst | OldestFirst

definition requested_order :: "'e iter_request \<Rightarrow> pagination_order" where
  "requested_order r = (if reverse r then OldestFirst else NewestFirst)"

text \<open>
  \<^verbatim>\<open>if phone_or_token:\<close> chooses between \<^verbatim>\<open>client.start(phone=phone_or_token)\<close> and
  \<^verbatim>\<open>client.start()\<close>; \<open>None\<close> is the call without a phone.
\<close>

definition phone_arg :: "args \<Rightarrow> string option" where
  "phone_arg a =
     (case phone_or_token a of
        None \<Rightarrow> None
      | Some p \<Rightarrow> if p = [] then None else Some p)"

text \<open>
  \<^verbatim>\<open>scrape(args)\<close> at the time \<open>now_utc\<close>: the trace of calls and the exception that leaves
  the coroutine (\<open>None\<close> when it returns).
\<close>

definition scrape :: "pylib \<Rightarrow> int \<Rightarrow> 'e client \<Rightarrow> args \<Rightarrow> 'e event list \<times> exc option" where
  "scrape lib now_utc cl a =
     (case parse_chat_identifier lib (chat a) (topic_id a) of
        Inl e \<Rightarrow> ([], Some e)
      | Inr (chat_identifier, topic) \<Rightarrow>
          (let ph = phone_arg a
           in case start cl ph of
                Some e \<Rightarrow> ([EvStart ph], Some e)
              | None \<Rightarrow>
                  (case get_entity cl chat_identifier of
                     Inl e \<Rightarrow>
                       (if is_resolution_error e then
                          (case disconnect cl of
                             Some e' \<Rightarrow>
                               ([EvStart ph, EvGetEntity chat_identifier, EvDisconnect], Some e')
                           | None \<Rightarrow>
                               ([EvStart ph, EvGetEntity chat_identifier, EvDisconnect],
                                Some (access_error lib chat_identifier e)))
                        else ([EvStart ph, EvGetEntity chat_identifier], Some e))
                   | Inr entity \<Rightarrow>
                       (case compute_cutoff now_utc (days a) of
                          Inl e \<Rightarrow> ([EvStart ph, EvGetEntity chat_identifier], Some e)
                        | Inr cutoff \<Rightarrow>
                            (let req = make_iter_request entity topic;
                                 (items, ex) = iter_messages cl req;
                                 (rows, n, broke) = fetch_loop lib chat_identifier cutoff items [];
                                 tr = [EvStart ph, EvGetEntity chat_identifier,
                                       EvIterMessages req, EvConsumed n]
                             in if \<not> broke \<and> ex \<noteq> None then (tr, ex)
                                else (case disconnect cl of
                                        Some e \<Rightarrow> (tr @ [EvDisconnect], Some e)
                                      | None \<Rightarrow> (tr @ [EvDisconnect, EvDump rows], None)))))))"

text \<open>Sample messages and clients for evaluating the model.\<close>

definition sample_msg :: "int \<Rightarrow> int \<Rightarrow> tg_message" where
  "sample_msg i d =
     \<lparr>msg_id = i, date = Some d, has_sender_id = True, sender_id = Some 7,
      sender = Some (Some ''ann''), message = Some ''hi'', reply_to_msg_id = None,
      action = None\<rparr>"

definition service_msg :: tg_message where
  "service_msg =
     \<lparr>msg_id = 4, date = Some 50, has_sender_id = True, sender_id = None,
      sender = None, message = None, reply_to_msg_id = None,
      action = Some ''MessageActionPinMessage''\<rparr>"

definition sample_client :: "exc + nat \<Rightarrow> exc option \<Rightarrow> nat client" where
  "sample_client resolved disc =
     \<lparr>start = (\<lambda>ph. None),
      get_entity = (\<lambda>c. resolved),
      iter_messages =
        (\<lambda>r. ([Msg (sample_msg 3 30), Msg (sample_msg 2 20), Msg (sample_msg 1 10)], None)),
      disconnect = disc\<rparr>"

definition sample_args :: "string \<Rightarrow> args" where
  "sample_args c = \<lparr>chat = c, topic_id = None, days = 0, phone_or_token = None\<rparr>"

section \<open>Notions used to state the properties\<close>

text \<open>\<^verbatim>\<open>urlparse(s)\<close> raises.\<close>

definition urlparse_raises :: "pylib \<Rightarrow> string \<Rightarrow> bool" where
  "urlparse_raises lib s = (case urlparse lib s of Inl e \<Rightarrow> True | Inr p \<Rightarrow> False)"

text \<open>The item is a dated message older than the cutoff: the test that leads to \<^verbatim>\<open>break\<close>.\<close>

definition older :: "int \<Rightarrow> item \<Rightarrow> bool" where
  "older cutoff it =
     (case it of
        NotMessage \<Rightarrow> False
      | Msg m \<Rightarrow> (case date m of None \<Rightarrow> False | Some d \<Rightarrow> d < cutoff))"

text \<open>The rows one item contributes: none for an item skipped by \<^verbatim>\<open>continue\<close>.\<close>

definition item_rows :: "pylib \<Rightarrow> string \<Rightarrow> item \<Rightarrow> row list" where
  "item_rows lib c it =
     (case it of
        NotMessage \<Rightarrow> []
      | Msg m \<Rightarrow> (case date m of None \<Rightarrow> [] | Some d \<Rightarrow> [make_row lib c m d]))"

text \<open>The message has a timestamp, and it is not earlier than the cutoff.\<close>

definition in_window :: "int \<Rightarrow> tg_message \<Rightarrow> bool" where
  "in_window cutoff m = (case date m of None \<Rightarrow> False | Some d \<Rightarrow> cutoff \<le> d)"

text \<open>The messages of a sequence whose timestamp is not earlier than the cutoff.\<close>

definition retained :: "int \<Rightarrow> tg_message list \<Rightarrow> tg_message list" where
  "retained cutoff ms = filter (in_window cutoff) ms"

text \<open>The record projected from a dated message.\<close>

definition row_of :: "pylib \<Rightarrow> string \<Rightarrow> tg_message \<Rightarrow> row" where
  "row_of lib c m = (case date m of None \<Rightarrow> [] | Some d \<Rightarrow> make_row lib c m d)"

text \<open>A non-empty path segment without \<^verbatim>\<open>/?#;\<close>, tab, CR or LF: it reaches the path unchanged.\<close>

definition plain_segment :: "string \<Rightarrow> bool" where
  "plain_segment s =
     (s \<noteq> [] \<and> list_all (\<lambda>c. c \<notin> set ''/?#;'' \<and> c \<noteq> CHR 0x09 \<and> c \<noteq> CHR 0x0D \<and> c \<noteq> CHR 0x0A) s)"

section \<open>What the library functions raise\<close>

lemma py_int_error: "py_int lib s = Inl e \<Longrightarrow> e = ValueError"
  by (simp add: py_int_def Let_def split: if_splits)

lemma check_brackets_error: "check_brackets lib nl = Some e \<Longrightarrow> e = ValueError"
  by (simp add: check_brackets_def Let_def split: if_splits)

lemma checknetloc_error: "checknetloc lib nl = Some e \<Longrightarrow> e = ValueError"
  by (simp add: checknetloc_def split: if_splits)

lemma urlsplit_error: "urlsplit lib s = Inl e \<Longrightarrow> e = ValueError"
  by (auto simp: urlsplit_def Let_def split: prod.splits option.splits if_splits
           dest: check_brackets_error checknetloc_error)

lemma urlparse_error: "urlparse lib s = Inl e \<Longrightarrow> e = ValueError"
  by (auto simp: urlparse_def Let_def split: sum.splits prod.splits dest: urlsplit_error)

section \<open>The branches of the resolver\<close>

lemma parse_not_url:
  "\<not> is_url (strip raw) \<Longrightarrow> parse_chat_identifier lib raw t = Inr (strip raw, t)"
  by (simp add: parse_chat_identifier_def)

lemma parse_url_raises:
  "is_url (strip raw) \<Longrightarrow> urlparse lib (strip raw) = Inl e \<Longrightarrow>
   parse_chat_identifier lib raw t = Inl e"
  by (simp add: parse_chat_identifier_def)

lemma parse_url_none:
  "is_url (strip raw) \<Longrightarrow> urlparse lib (strip raw) = Inr parsed \<Longrightarrow>
   path_parts (path parsed) = [] \<Longrightarrow>
   parse_chat_identifier lib raw t = Inr (strip raw, t)"
  by (simp add: parse_chat_identifier_def)

lemma parse_url_one:
  "is_url (strip raw) \<Longrightarrow> urlparse lib (strip raw) = Inr parsed \<Longrightarrow>
   path_parts (path parsed) = [p0] \<Longrightarrow>
   parse_chat_identifier lib raw t = Inr (p0, t)"
  by (simp add: parse_chat_identifier_def)

lemma parse_url_two_given:
  "is_url (strip raw) \<Longrightarrow> urlparse lib (strip raw) = Inr parsed \<Longrightarrow>
   path_parts (path parsed) = p0 # p1 # ps \<Longrightarrow>
   parse_chat_identifier lib raw (Some n) = Inr (p0, Some n)"
  by (simp add: parse_chat_identifier_def)

lemma parse_url_two_absent:
  "is_url (strip raw) \<Longrightarrow> urlparse lib (strip raw) = Inr parsed \<Longrightarrow>
   path_parts (path parsed) = p0 # p1 # ps \<Longrightarrow>
   parse_chat_identifier lib raw None =
     Inr (p0, case py_int lib p1 of Inr n \<Rightarrow> Some n | Inl e \<Rightarrow> None)"
  by (auto simp: parse_chat_identifier_def Let_def split: sum.splits exc.splits dest: py_int_error)

section \<open>Trimming keeps a scheme prefix\<close>

lemma strip_keeps_prefix:
  assumes "p \<noteq> []" "\<not> py_isspace (hd p)" "\<not> py_isspace (last p)"
  shows "\<exists>r'. strip (p @ r) = p @ r'"
proof -
  from assms obtain c cs where p: "p = c # cs" and c: "\<not> py_isspace c"
    by (cases p) auto
  have front: "dropWhile py_isspace (p @ r) = p @ r"
    using p c by simp
  have back_p: "dropWhile py_isspace (rev p) = rev p"
    using assms by (cases "rev p") (auto simp: last_rev hd_rev)
  have "dropWhile py_isspace (rev r @ rev p) =
          (if \<forall>x\<in>set (rev r). py_isspace x then rev p
           else dropWhile py_isspace (rev r) @ rev p)"
    by (simp add: dropWhile_append back_p)
  then show ?thesis
    by (auto simp: strip_def front)
qed

lemma startswith_append: "startswith s p \<Longrightarrow> s = p @ drop (length p) s"
  by (metis append_take_drop_id startswith_def)

lemma startswith_strip:
  assumes "startswith s p" "p \<noteq> []" "\<not> py_isspace (hd p)" "\<not> py_isspace (last p)"
  shows "startswith (strip s) p"
proof -
  obtain r' where "strip (p @ drop (length p) s) = p @ r'"
    using strip_keeps_prefix [OF assms(2-4)] by blast
  then have "strip s = p @ r'"
    using startswith_append [OF assms(1)] by simp
  then show ?thesis by (simp add: startswith_def)
qed

lemma is_url_strip: "is_url raw \<Longrightarrow> is_url (strip raw)"
  unfolding is_url_def
  by (auto intro!: startswith_strip simp: py_isspace_def)

section \<open>ASCII links without brackets are accepted\<close>

lemma set_slice_from: "set (slice_from s i) \<subseteq> set s"
  by (auto simp: slice_from_def dest: in_set_dropD)

lemma set_split_scheme: "set (snd (split_scheme s)) \<subseteq> set s"
  using set_slice_from by (simp add: split_scheme_def Let_def)

lemma set_splitnetloc: "set (fst (splitnetloc s)) \<subseteq> set s"
  by (auto simp: splitnetloc_def dest: set_takeWhileD in_set_dropD)

lemma set_url_prefix: "set (remove_unsafe (lstrip_c0 s)) \<subseteq> set s"
  by (auto simp: remove_unsafe_def lstrip_c0_def dest: set_dropWhileD)

lemma check_brackets_free:
  "CHR ''['' \<notin> set nl \<Longrightarrow> CHR '']'' \<notin> set nl \<Longrightarrow> check_brackets lib nl = None"
  by (simp add: check_brackets_def)

lemma checknetloc_ascii: "list_all is_ascii nl \<Longrightarrow> checknetloc lib nl = None"
  by (simp add: checknetloc_def)

lemma urlsplit_ascii_bracket_free:
  assumes "list_all is_ascii s" "CHR ''['' \<notin> set s" "CHR '']'' \<notin> set s"
  shows "\<exists>r. urlsplit lib s = Inr r"
proof -
  define url2 where "url2 = snd (split_scheme (remove_unsafe (lstrip_c0 s)))"
  have "set url2 \<subseteq> set s"
    unfolding url2_def using set_split_scheme set_url_prefix by blast
  then have sub: "set (fst (splitnetloc url2)) \<subseteq> set s"
    using set_splitnetloc by blast
  then have br: "check_brackets lib (fst (splitnetloc url2)) = None"
    using assms(2,3) by (intro check_brackets_free) auto
  have "list_all is_ascii (fst (splitnetloc url2))"
    using sub assms(1) by (auto simp: list_all_iff)
  then have nf: "checknetloc lib (fst (splitnetloc url2)) = None"
    by (rule checknetloc_ascii)
  have nf0: "checknetloc lib [] = None"
    by (simp add: checknetloc_def)
  show ?thesis
    using br nf nf0
    by (auto simp: urlsplit_def Let_def url2_def split: prod.splits option.splits)
qed

lemma urlparse_ascii_bracket_free:
  assumes "list_all is_ascii s" "CHR ''['' \<notin> set s" "CHR '']'' \<notin> set s"
  shows "\<not> urlparse_raises lib s"
proof -
  obtain r where "urlsplit lib s = Inr r"
    using urlsplit_ascii_bracket_free [OF assms] by blast
  then show ?thesis
    by (simp add: urlparse_raises_def urlparse_def Let_def split: prod.splits)
qed

lemma set_strip: "set (strip s) \<subseteq> set s"
  by (auto simp: strip_def dest!: set_dropWhileD)

lemma parse_returns:
  assumes "\<not> (is_url (strip raw) \<and> urlparse_raises lib (strip raw))"
  shows "\<exists>ident topic. parse_chat_identifier lib raw t = Inr (ident, topic)"
proof (cases "is_url (strip raw)")
  case False
  then show ?thesis by (simp add: parse_not_url)
next
  case True
  with assms obtain parsed where ok: "urlparse lib (strip raw) = Inr parsed"
    by (auto simp: urlparse_raises_def split: sum.splits)
  show ?thesis
  proof (cases "path_parts (path parsed)")
    case Nil
    then show ?thesis using parse_url_none [OF True ok] by simp
  next
    case (Cons p0 ps)
    note outer = Cons
    show ?thesis
    proof (cases ps)
      case Nil
      then show ?thesis using parse_url_one [OF True ok] outer by simp
    next
      case (Cons p1 ps')
      then show ?thesis
        using parse_url_two_given [OF True ok] parse_url_two_absent [OF True ok] outer
        by (cases t) auto
    qed
  qed
qed

lemma parse_keeps_given:
  assumes "parse_chat_identifier lib raw (Some n) = Inr (ident, topic)"
  shows "topic = Some n"
  using assms
  by (auto simp: parse_chat_identifier_def Let_def split: if_splits sum.splits exc.splits)

section \<open>Properties of the identifier resolver\<close>

text \<open>
  Claim C2. Let the input begin with \<^verbatim>\<open>http://\<close> or \<^verbatim>\<open>https://\<close>, let \<^verbatim>\<open>urlparse\<close> of the
  trimmed input give a path with at least two non-empty segments, and let no topic id be
  supplied. Then the resolver returns the first segment as the identifier; the topic id is
  the integer \<^verbatim>\<open>int\<close> reads from the second segment, and absent when \<^verbatim>\<open>int\<close> raises.
\<close>

theorem link_two_segments:
  assumes "is_url raw"
    and "urlparse lib (strip raw) = Inr parsed"
    and "path_parts (path parsed) = p0 # p1 # ps"
  shows "parse_chat_identifier lib raw None =
           Inr (p0, case py_int lib p1 of Inr n \<Rightarrow> Some n | Inl e \<Rightarrow> None)"
  using assms by (intro parse_url_two_absent is_url_strip)

theorem link_two_segments_witness:
  "is_url ''https://t.me/slug/5''
   \<and> path_parts ''/slug/5'' = [''slug'', ''5'']
   \<and> py_int sample_lib ''5'' = Inr 5
   \<and> parse_chat_identifier sample_lib ''https://t.me/slug/5'' None = Inr (''slug'', Some 5)"
proof -
  have h1: "is_url ''https://t.me/slug/5''"
    by code_simp
  have h2: "urlparse sample_lib (strip ''https://t.me/slug/5'') =
              Inr \<lparr>scheme = ''https'', netloc = ''t.me'', path = ''/slug/5'', params = [],
                   query = [], fragment = []\<rparr>"
    by code_simp
  have h3: "path_parts (path \<lparr>scheme = ''https'', netloc = ''t.me'', path = ''/slug/5'',
              params = [], query = [], fragment = []\<rparr>) = ''slug'' # ''5'' # []"
    by code_simp
  have h4: "py_int sample_lib ''5'' = Inr 5"
    by code_simp
  from link_two_segments [OF h1 h2 h3] h1 h3 h4 show ?thesis
    by simp
qed

text \<open>
  Claim C10. Let the input begin with \<^verbatim>\<open>http://\<close> or \<^verbatim>\<open>https://\<close> and let the path that
  \<^verbatim>\<open>urlparse\<close> finds have no non-empty segment. Then the resolver returns the whole trimmed
  input, which still begins with its scheme, and the topic id as it was passed in.
\<close>

theorem link_no_segments:
  assumes "is_url raw"
    and "urlparse lib (strip raw) = Inr parsed"
    and "path_parts (path parsed) = []"
  shows "parse_chat_identifier lib raw t = Inr (strip raw, t) \<and> is_url (strip raw)"
  using assms by (simp add: parse_url_none is_url_strip)

theorem link_no_segments_witness:
  "is_url ''https://t.me/'' \<and> path_parts ''/'' = []
   \<and> parse_chat_identifier sample_lib ''https://t.me/'' (Some 4) = Inr (''https://t.me/'', Some 4)"
proof -
  have h1: "is_url ''https://t.me/''"
    by code_simp
  have h2: "urlparse sample_lib (strip ''https://t.me/'') =
              Inr \<lparr>scheme = ''https'', netloc = ''t.me'', path = ''/'', params = [],
                   query = [], fragment = []\<rparr>"
    by code_simp
  have h3: "path_parts (path \<lparr>scheme = ''https'', netloc = ''t.me'', path = ''/'',
              params = [], query = [], fragment = []\<rparr>) = []"
    by code_simp
  have h4: "strip ''https://t.me/'' = ''https://t.me/''"
    by code_simp
  from link_no_segments [OF h1 h2 h3, of "Some 4"] h1 h3 h4 show ?thesis
    by simp
qed

text \<open>
  Claim C6 as stated does not hold: an input that does not begin with a scheme is not
  always returned unchanged. Surrounding whitespace is removed, and an input with a space
  before the scheme is still read as a link.
\<close>

theorem plain_identifier_changed:
  "\<not> is_url '' abc '' \<and> parse_chat_identifier sample_lib '' abc '' None = Inr (''abc'', None)
   \<and> \<not> is_url '' https://t.me/a/5''
   \<and> parse_chat_identifier sample_lib '' https://t.me/a/5'' None = Inr (''a'', Some 5)"
  by code_simp

text \<open>
  Claim C6, amended. When the trimmed input does not begin with \<^verbatim>\<open>http://\<close> or
  \<^verbatim>\<open>https://\<close>, the resolver returns the trimmed input as the identifier and the topic id
  as it was passed in.
\<close>

theorem plain_identifier_trimmed:
  assumes "\<not> is_url (strip raw)"
  shows "parse_chat_identifier lib raw t = Inr (strip raw, t)"
  using assms by (rule parse_not_url)

theorem plain_identifier_trimmed_witness:
  "\<not> is_url (strip '' abc '')
   \<and> parse_chat_identifier sample_lib '' abc '' (Some 2) = Inr (''abc'', Some 2)"
proof -
  have h1: "\<not> is_url (strip '' abc '')"
    by code_simp
  have h2: "strip '' abc '' = ''abc''"
    by code_simp
  from plain_identifier_trimmed [OF h1, of sample_lib "Some 2"] h1 h2 show ?thesis
    by simp
qed

text \<open>
  Claim C3 as stated does not hold for every input string: on a link that \<^verbatim>\<open>urlparse\<close>
  rejects, the resolver raises ValueError and returns no topic id, supplied or not.
\<close>

theorem given_topic_lost:
  "parse_chat_identifier sample_lib ''http://['' (Some 7) = Inl ValueError"
  by code_simp

text \<open>
  Claim C3, amended. For every input that is not a link rejected by \<^verbatim>\<open>urlparse\<close>, and every
  supplied topic id, the resolver returns, and the topic id returned is the supplied one.
\<close>

theorem given_topic_kept:
  assumes "\<not> (is_url (strip raw) \<and> urlparse_raises lib (strip raw))"
  shows "\<exists>ident. parse_chat_identifier lib raw (Some n) = Inr (ident, Some n)"
proof -
  obtain ident topic where r: "parse_chat_identifier lib raw (Some n) = Inr (ident, topic)"
    using parse_returns [OF assms] by blast
  then have "topic = Some n"
    by (rule parse_keeps_given)
  with r show ?thesis by blast
qed

theorem given_topic_kept_witness:
  "\<not> (is_url (strip ''https://t.me/x/5'') \<and> urlparse_raises sample_lib (strip ''https://t.me/x/5''))
   \<and> parse_chat_identifier sample_lib ''https://t.me/x/5'' (Some 9) = Inr (''x'', Some 9)"
proof -
  have h: "\<not> (is_url (strip ''https://t.me/x/5'')
             \<and> urlparse_raises sample_lib (strip ''https://t.me/x/5''))"
    by code_simp
  have e: "parse_chat_identifier sample_lib ''https://t.me/x/5'' (Some 9) = Inr (''x'', Some 9)"
    by code_simp
  from given_topic_kept [OF h, of 9] h e show ?thesis
    by simp
qed

text \<open>
  Claim C8 as stated does not hold: the resolver raises ValueError on a link with an
  opening bracket and no closing one in its network location.
\<close>

theorem resolver_raises:
  "parse_chat_identifier sample_lib ''http://['' None = Inl ValueError"
  by code_simp

text \<open>
  Claim C8, amended. The resolver raises ValueError exactly when the trimmed input is a
  link that \<^verbatim>\<open>urlparse\<close> rejects (for its brackets, or for a network location that fails
  the NFKC test); on every other input it returns a pair, whatever the second path segment
  is. In particular it returns on every ASCII input without brackets.
\<close>

theorem resolver_total_unless_rejected:
  "(if is_url (strip raw) \<and> urlparse_raises lib (strip raw)
    then parse_chat_identifier lib raw t = Inl ValueError
    else (\<exists>ident topic. parse_chat_identifier lib raw t = Inr (ident, topic)))
   \<and> (list_all is_ascii raw \<and> CHR ''['' \<notin> set raw \<and> CHR '']'' \<notin> set raw \<longrightarrow>
        (\<exists>ident topic. parse_chat_identifier lib raw t = Inr (ident, topic)))"
proof -
  have rejected: "parse_chat_identifier lib raw t = Inl ValueError"
    if "is_url (strip raw)" "urlparse_raises lib (strip raw)"
  proof -
    from that(2) obtain e where e: "urlparse lib (strip raw) = Inl e"
      by (auto simp: urlparse_raises_def split: sum.splits)
    then have "e = ValueError" by (rule urlparse_error)
    with parse_url_raises [OF that(1) e] show ?thesis by simp
  qed
  have free: "\<exists>ident topic. parse_chat_identifier lib raw t = Inr (ident, topic)"
    if "list_all is_ascii raw" "CHR ''['' \<notin> set raw" "CHR '']'' \<notin> set raw"
  proof -
    have "list_all is_ascii (strip raw)"
      using that(1) set_strip by (auto simp: list_all_iff)
    moreover have "CHR ''['' \<notin> set (strip raw)" "CHR '']'' \<notin> set (strip raw)"
      using that(2,3) set_strip by blast+
    ultimately have "\<not> urlparse_raises lib (strip raw)"
      by (rule urlparse_ascii_bracket_free)
    then show ?thesis by (intro parse_returns) simp
  qed
  show ?thesis
    using rejected free parse_returns [of raw lib t] by auto
qed

theorem resolver_total_unless_rejected_witness:
  "list_all is_ascii ''https://t.me/slug/abc''
   \<and> CHR ''['' \<notin> set ''https://t.me/slug/abc'' \<and> CHR '']'' \<notin> set ''https://t.me/slug/abc''
   \<and> parse_chat_identifier sample_lib ''https://t.me/slug/abc'' None = Inr (''slug'', None)
   \<and> is_url (strip ''http://[/a/5'') \<and> urlparse_raises sample_lib (strip ''http://[/a/5'')
   \<and> parse_chat_identifier sample_lib ''http://[/a/5'' None = Inl ValueError"
proof -
  have a: "list_all is_ascii ''https://t.me/slug/abc''
           \<and> CHR ''['' \<notin> set ''https://t.me/slug/abc'' \<and> CHR '']'' \<notin> set ''https://t.me/slug/abc''"
    by (simp add: is_ascii_def)
  have b: "is_url (strip ''http://[/a/5'') \<and> urlparse_raises sample_lib (strip ''http://[/a/5'')"
    by code_simp
  from resolver_total_unless_rejected [of "''https://t.me/slug/abc''" sample_lib None] a
  obtain ident topic where
    r: "parse_chat_identifier sample_lib ''https://t.me/slug/abc'' None = Inr (ident, topic)"
    by blast
  have c: "parse_chat_identifier sample_lib ''https://t.me/slug/abc'' None = Inr (''slug'', None)"
    by code_simp
  from resolver_total_unless_rejected [of "''http://[/a/5''" sample_lib None] b
  have d: "parse_chat_identifier sample_lib ''http://[/a/5'' None = Inl ValueError"
    by simp
  from a b c d r show ?thesis by blast
qed

text \<open>
  Claim C7 as stated does not hold: the empty input gives the empty identifier, and a
  topic id read from a link or passed in may be negative or zero.
\<close>

theorem reference_invariant_broken:
  "parse_chat_identifier sample_lib [] None = Inr ([], None)
   \<and> parse_chat_identifier sample_lib ''https://t.me/c/-5'' None = Inr (''c'', Some (- 5))
   \<and> parse_chat_identifier sample_lib ''chan'' (Some 0) = Inr (''chan'', Some 0)"
  by code_simp

lemma path_parts_nonempty: "p \<in> set (path_parts s) \<Longrightarrow> p \<noteq> []"
  by (simp add: path_parts_def)

lemma is_url_nonempty: "is_url s \<Longrightarrow> s \<noteq> []"
  by (auto simp: is_url_def startswith_def)

text \<open>
  Claim C7, amended. Whenever the resolver returns, the identifier is empty exactly when
  the trimmed input is empty, and the topic id is the one passed in or, when none was
  passed in, the integer that \<^verbatim>\<open>int\<close> reads from the second path segment of the link
  (of either sign).
\<close>

theorem reference_shape:
  assumes "parse_chat_identifier lib raw t = Inr (ident, topic)"
  shows "(ident = [] \<longleftrightarrow> strip raw = [])
         \<and> (topic = t
            \<or> (t = None
               \<and> (\<exists>parsed p0 p1 ps n.
                     urlparse lib (strip raw) = Inr parsed
                     \<and> path_parts (path parsed) = p0 # p1 # ps
                     \<and> py_int lib p1 = Inr n \<and> topic = Some n)))"
proof (cases "is_url (strip raw)")
  case False
  with assms show ?thesis by (simp add: parse_not_url)
next
  case True
  note url = True
  then have ne: "strip raw \<noteq> []" by (rule is_url_nonempty)
  show ?thesis
  proof (cases "urlparse lib (strip raw)")
    case (Inl e)
    with assms url show ?thesis by (simp add: parse_url_raises)
  next
    case (Inr parsed)
    note ok = Inr
    show ?thesis
    proof (cases "path_parts (path parsed)")
      case Nil
      with assms ne show ?thesis using parse_url_none [OF url ok] by simp
    next
      case (Cons p0 ps)
      note outer = Cons
      then have p0: "p0 \<noteq> []" using path_parts_nonempty [of p0 "path parsed"] by simp
      show ?thesis
      proof (cases ps)
        case Nil
        with assms ne p0 outer show ?thesis using parse_url_one [OF url ok] by simp
      next
        case (Cons p1 ps')
        with outer have parts: "path_parts (path parsed) = p0 # p1 # ps'" by simp
        show ?thesis
        proof (cases t)
          case (Some n)
          with assms ne p0 show ?thesis using parse_url_two_given [OF url ok parts] by simp
        next
          case None
          with assms have r: "Inr (ident, topic) =
              (Inr (p0, case py_int lib p1 of Inr n \<Rightarrow> Some n | Inl e \<Rightarrow> None)
                 :: exc + string \<times> int option)"
            using parse_url_two_absent [OF url ok parts] by simp
          show ?thesis
          proof (cases "py_int lib p1")
            case (Inl e)
            with r None ne p0 show ?thesis by simp
          next
            case (Inr n)
            with r None ne p0 ok parts show ?thesis by auto
          qed
        qed
      qed
    qed
  qed
qed

theorem reference_shape_witness:
  "parse_chat_identifier sample_lib ''https://t.me/c/-5'' None = Inr (''c'', Some (- 5))
   \<and> strip ''https://t.me/c/-5'' \<noteq> []
   \<and> (\<exists>parsed p0 p1 ps. urlparse sample_lib (strip ''https://t.me/c/-5'') = Inr parsed
         \<and> path_parts (path parsed) = p0 # p1 # ps \<and> py_int sample_lib p1 = Inr (- 5))"
proof -
  have h: "parse_chat_identifier sample_lib ''https://t.me/c/-5'' None = Inr (''c'', Some (- 5))"
    by code_simp
  from reference_shape [OF h] h show ?thesis
    by auto
qed

section \<open>Properties of the fetch loop\<close>

lemma fetch_loop_general:
  "fetch_loop lib c cutoff its rows =
     (rows @ concat (map (item_rows lib c) (takeWhile (\<lambda>it. \<not> older cutoff it) its)),
      min (length its) (Suc (length (takeWhile (\<lambda>it. \<not> older cutoff it) its))),
      list_ex (older cutoff) its)"
proof (induction lib c cutoff its rows rule: fetch_loop.induct)
  case (1 lib c cutoff rows)
  show ?case by simp
next
  case (2 lib c cutoff its rows)
  then show ?case by (simp add: took_one_def older_def item_rows_def)
next
  case (3 lib c cutoff msg its rows)
  show ?case
  proof (cases "date msg")
    case None
    with 3 show ?thesis by (simp add: took_one_def older_def item_rows_def)
  next
    case (Some d)
    with 3 show ?thesis by (simp add: took_one_def older_def item_rows_def)
  qed
qed

lemma dated_takeWhile:
  "map date ms = map Some ds \<Longrightarrow>
   takeWhile (\<lambda>it. \<not> older cutoff it) (map Msg ms) = map Msg (takeWhile (in_window cutoff) ms)"
proof (induction ms arbitrary: ds)
  case Nil
  show ?case by simp
next
  case (Cons m ms)
  then obtain d ds' where "ds = d # ds'" "date m = Some d" "map date ms = map Some ds'"
    by (cases ds) auto
  with Cons.IH [of ds'] show ?case
    by (auto simp: older_def in_window_def)
qed

lemma dated_rows:
  "map date ms = map Some ds \<Longrightarrow>
   concat (map (item_rows lib c) (map Msg (takeWhile P ms))) = map (row_of lib c) (takeWhile P ms)"
proof (induction ms arbitrary: ds)
  case Nil
  show ?case by simp
next
  case (Cons m ms)
  then obtain d ds' where "ds = d # ds'" "date m = Some d" "map date ms = map Some ds'"
    by (cases ds) auto
  with Cons.IH [of ds'] show ?case
    by (simp add: item_rows_def row_of_def)
qed

lemma dated_older: "map date ms = map Some ds \<Longrightarrow>
   list_ex (older cutoff) (map Msg ms) = (length (takeWhile (in_window cutoff) ms) < length ms)"
proof (induction ms arbitrary: ds)
  case Nil
  show ?case by simp
next
  case (Cons m ms)
  then obtain d ds' where "ds = d # ds'" "date m = Some d" "map date ms = map Some ds'"
    by (cases ds) auto
  with Cons.IH [of ds'] show ?case
    by (auto simp: older_def in_window_def)
qed

lemma decreasing_window:
  "map date ms = map Some ds \<Longrightarrow> sorted_wrt (\<lambda>a b. b < a) ds \<Longrightarrow>
   filter (in_window cutoff) ms = takeWhile (in_window cutoff) ms"
proof (induction ms arbitrary: ds)
  case Nil
  show ?case by simp
next
  case (Cons m ms)
  then obtain d ds' where ds: "ds = d # ds'" "date m = Some d" "map date ms = map Some ds'"
    by (cases ds) auto
  with Cons.prems have sorted: "sorted_wrt (\<lambda>a b. b < a) ds'" and below: "\<forall>x\<in>set ds'. x < d"
    by auto
  show ?case
  proof (cases "cutoff \<le> d")
    case True
    with Cons.IH [OF ds(3) sorted] ds(2) show ?thesis
      by (simp add: in_window_def)
  next
    case False
    have "\<not> in_window cutoff x" if "x \<in> set ms" for x
    proof -
      from that have "date x \<in> set (map date ms)" by simp
      then obtain y where "y \<in> set ds'" "date x = Some y"
        using ds(3) by auto
      with below False show ?thesis
        by (auto simp: in_window_def)
    qed
    then have "filter (in_window cutoff) ms = []"
      by (simp add: filter_empty_conv)
    moreover have "\<not> in_window cutoff m"
      using False ds(2) by (simp add: in_window_def)
    ultimately show ?thesis
      by simp
  qed
qed

text \<open>
  Claim C1. Let the iterator yield messages whose timestamps are strictly decreasing.
  Then the rows collected are the projections, in the order yielded, of exactly the
  messages whose timestamp is not earlier than the cutoff; these messages are a prefix of
  the sequence; and the loop takes one item more than that prefix (the first older message,
  at which it breaks) or the whole sequence when no message is older.
\<close>

theorem fetch_window_prefix:
  assumes "map date ms = map Some ds"
    and "sorted_wrt (\<lambda>a b. b < a) ds"
  shows "fetch_loop lib c cutoff (map Msg ms) [] =
           (map (row_of lib c) (retained cutoff ms),
            min (length ms) (Suc (length (retained cutoff ms))),
            length (retained cutoff ms) < length ms)
         \<and> retained cutoff ms = take (length (retained cutoff ms)) ms"
proof -
  have win: "retained cutoff ms = takeWhile (in_window cutoff) ms"
    unfolding retained_def using assms by (rule decreasing_window)
  have pre: "takeWhile (in_window cutoff) ms = take (length (takeWhile (in_window cutoff) ms)) ms"
    by (rule takeWhile_eq_take)
  have loop: "fetch_loop lib c cutoff (map Msg ms) [] =
          (map (row_of lib c) (takeWhile (in_window cutoff) ms),
           min (length ms) (Suc (length (takeWhile (in_window cutoff) ms))),
           length (takeWhile (in_window cutoff) ms) < length ms)"
    unfolding fetch_loop_general dated_takeWhile [OF assms(1)]
      dated_rows [OF assms(1)] dated_older [OF assms(1)]
    by simp
  show ?thesis
    unfolding win by (rule conjI [OF loop pre])
qed

theorem fetch_window_prefix_witness:
  "map date [sample_msg 3 30, sample_msg 2 20, sample_msg 1 10, sample_msg 0 5] = map Some [30, 20, 10, 5]
   \<and> sorted_wrt (\<lambda>a b. b < a) [30, 20, 10, 5 :: int]
   \<and> retained 15 [sample_msg 3 30, sample_msg 2 20, sample_msg 1 10, sample_msg 0 5]
       = [sample_msg 3 30, sample_msg 2 20]
   \<and> fetch_loop sample_lib ''chan'' 15
        (map Msg [sample_msg 3 30, sample_msg 2 20, sample_msg 1 10, sample_msg 0 5]) [] =
       ([row_of sample_lib ''chan'' (sample_msg 3 30), row_of sample_lib ''chan'' (sample_msg 2 20)],
        3, True)"
proof -
  have h1: "map date [sample_msg 3 30, sample_msg 2 20, sample_msg 1 10, sample_msg 0 5]
              = map Some [30, 20, 10, 5]"
    by (simp add: sample_msg_def)
  have h2: "sorted_wrt (\<lambda>a b. b < a) [30, 20, 10, 5 :: int]"
    by simp
  have h3: "retained 15 [sample_msg 3 30, sample_msg 2 20, sample_msg 1 10, sample_msg 0 5]
              = [sample_msg 3 30, sample_msg 2 20]"
    by (simp add: retained_def in_window_def sample_msg_def)
  from fetch_window_prefix [OF h1 h2, of sample_lib "''chan''" 15] h1 h2 h3 show ?thesis
    by simp
qed

section \<open>Properties of the run\<close>

lemma scrape_resolution_failure:
  assumes "parse_chat_identifier lib (chat a) (topic_id a) = Inr (ident, topic)"
    and "start cl (phone_arg a) = None"
    and "get_entity cl ident = Inl e"
  shows "scrape lib now_utc cl a =
           (if is_resolution_error e
            then ([EvStart (phone_arg a), EvGetEntity ident, EvDisconnect],
                  Some (case disconnect cl of
                          None \<Rightarrow> access_error lib ident e
                        | Some e' \<Rightarrow> e'))
            else ([EvStart (phone_arg a), EvGetEntity ident], Some e))"
  using assms by (simp add: scrape_def Let_def split: option.splits)

text \<open>
  Claim C4 as stated does not hold when the disconnect itself raises: the exception of
  \<^verbatim>\<open>client.disconnect()\<close> leaves \<^verbatim>\<open>scrape\<close>, and the descriptive error is not raised.
\<close>

theorem resolution_failure_disconnect_raises:
  "get_entity (sample_client (Inl (ChannelPrivateError ''private''))
                 (Some (OtherError ''database is locked''))) ''chan''
     = Inl (ChannelPrivateError ''private'')
   \<and> scrape sample_lib 15
        (sample_client (Inl (ChannelPrivateError ''private''))
           (Some (OtherError ''database is locked'')))
        (sample_args ''chan'')
     = ([EvStart None, EvGetEntity ''chan'', EvDisconnect],
        Some (OtherError ''database is locked''))"
  by code_simp

text \<open>
  Claim C4, amended. Let the client start and let \<^verbatim>\<open>get_entity\<close> raise \<open>e\<close>. When \<open>e\<close> is
  one of the three resolution errors, \<^verbatim>\<open>scrape\<close> calls \<^verbatim>\<open>disconnect\<close>; when that call returns,
  \<^verbatim>\<open>scrape\<close> raises one RuntimeError whose message holds the \<^verbatim>\<open>repr\<close> of the chat identifier
  and the text of \<open>e\<close>, and when that call raises, its exception is the one that leaves
  \<^verbatim>\<open>scrape\<close>. Any other \<open>e\<close> leaves \<^verbatim>\<open>scrape\<close> as it is, with no disconnect.
\<close>

theorem resolution_failure_reported:
  assumes "parse_chat_identifier lib (chat a) (topic_id a) = Inr (ident, topic)"
    and "start cl (phone_arg a) = None"
    and "get_entity cl ident = Inl e"
  shows "(is_resolution_error e \<and> disconnect cl = None \<longrightarrow>
            scrape lib now_utc cl a =
              ([EvStart (phone_arg a), EvGetEntity ident, EvDisconnect],
               Some (RuntimeError (''Unable to access chat '' @ repr_str lib ident
                                     @ '': '' @ exc_str e))))
         \<and> (is_resolution_error e \<and> disconnect cl = Some e' \<longrightarrow>
            scrape lib now_utc cl a =
              ([EvStart (phone_arg a), EvGetEntity ident, EvDisconnect], Some e'))
         \<and> (\<not> is_resolution_error e \<longrightarrow>
            scrape lib now_utc cl a = ([EvStart (phone_arg a), EvGetEntity ident], Some e))"
  using scrape_resolution_failure [OF assms, of now_utc]
  by (simp add: access_error_def)

theorem resolution_failure_reported_witness:
  "parse_chat_identifier sample_lib (chat (sample_args ''chan'')) (topic_id (sample_args ''chan''))
     = Inr (''chan'', None)
   \<and> is_resolution_error (UsernameNotOccupiedError ''nobody'')
   \<and> scrape sample_lib 15 (sample_client (Inl (UsernameNotOccupiedError ''nobody'')) None)
        (sample_args ''chan'')
     = ([EvStart None, EvGetEntity ''chan'', EvDisconnect],
        Some (RuntimeError (''Unable to access chat '' @ [CHR 0x27] @ ''chan'' @ [CHR 0x27]
                              @ '': nobody'')))"
proof -
  have h1: "parse_chat_identifier sample_lib (chat (sample_args ''chan''))
              (topic_id (sample_args ''chan'')) = Inr (''chan'', None)"
    by code_simp
  have h2: "start (sample_client (Inl (UsernameNotOccupiedError ''nobody'')) None)
              (phone_arg (sample_args ''chan'')) = None"
    by (simp add: sample_client_def)
  have h3: "get_entity (sample_client (Inl (UsernameNotOccupiedError ''nobody'')) None) ''chan''
              = Inl (UsernameNotOccupiedError ''nobody'')"
    by (simp add: sample_client_def)
  have h4: "disconnect (sample_client (Inl (UsernameNotOccupiedError ''nobody'')) None) = None"
    by (simp add: sample_client_def)
  have h5: "phone_arg (sample_args ''chan'') = None"
    by (simp add: phone_arg_def sample_args_def)
  have h6: "repr_str sample_lib ''chan'' = [CHR 0x27] @ ''chan'' @ [CHR 0x27]"
    by (simp add: sample_lib_def)
  from resolution_failure_reported [OF h1 h2 h3, where now_utc = 15] h1 h4 h5 h6 show ?thesis
    by simp
qed

text \<open>
  Claim C5 as stated does not hold: for a message with an action the field
  \<^verbatim>\<open>is_service\<close> is the integer 1, not the boolean true (and the integer 0 otherwise).
\<close>

theorem service_flag_is_integer:
  "action service_msg \<noteq> None
   \<and> map_of (make_row sample_lib ''chan'' service_msg 50) ''is_service'' = Some (PyInt 1)
   \<and> map_of (make_row sample_lib ''chan'' service_msg 50) ''is_service'' \<noteq> Some (PyBool True)
   \<and> map_of (make_row sample_lib ''chan'' (sample_msg 1 10) 10) ''is_service'' = Some (PyInt 0)"
  by (simp add: make_row_def service_msg_def sample_msg_def)

text \<open>
  Claim C5, amended. In the record of every retained message, \<^verbatim>\<open>is_service\<close> is the
  integer 1 when the message's action is not \<^verbatim>\<open>None\<close> and the integer 0 otherwise; \<^verbatim>\<open>text\<close>
  is always a string, and the empty string when the message has no text.
\<close>

theorem row_service_and_text:
  "map_of (make_row lib c m d) ''is_service'' = Some (PyInt (if action m = None then 0 else 1))
   \<and> (\<exists>t. map_of (make_row lib c m d) ''text'' = Some (PyStr t))
   \<and> (message m = None \<longrightarrow> map_of (make_row lib c m d) ''text'' = Some (PyStr []))"
  by (simp add: make_row_def)

theorem row_service_and_text_witness:
  "message service_msg = None
   \<and> map_of (make_row sample_lib ''chan'' service_msg 50) ''text'' = Some (PyStr [])
   \<and> map_of (make_row sample_lib ''chan'' service_msg 50) ''is_service'' = Some (PyInt 1)"
proof -
  have h: "message service_msg = None" "action service_msg \<noteq> None"
    by (simp_all add: service_msg_def)
  from row_service_and_text [of sample_lib "''chan''" service_msg 50] h show ?thesis
    by simp
qed

lemma scrape_request:
  "EvIterMessages r \<in> set (fst (scrape lib now_utc cl a)) \<Longrightarrow>
   \<exists>entity topic. r = make_iter_request entity topic"
  by (auto simp: scrape_def Let_def split: sum.splits option.splits prod.splits if_splits)

text \<open>
  Claim C9 as stated does not hold: the request \<^verbatim>\<open>scrape\<close> makes has \<^verbatim>\<open>reverse=False\<close>, which
  asks Telethon for the newest message first, not the oldest.
\<close>

theorem pagination_newest_first_example:
  "EvIterMessages (make_iter_request 0 None)
     \<in> set (fst (scrape sample_lib 15 (sample_client (Inr 0) None) (sample_args ''chan'')))
   \<and> requested_order (make_iter_request (0::nat) None) \<noteq> OldestFirst"
  by code_simp

text \<open>
  Claim C9, amended. Every \<^verbatim>\<open>iter_messages\<close> request of \<^verbatim>\<open>scrape\<close> has \<^verbatim>\<open>reverse=False\<close>, the
  newest-first order, and the loop builds its rows in the order the items are yielded, up
  to the first message older than the cutoff.
\<close>

theorem pagination_newest_first:
  "(EvIterMessages r \<in> set (fst (scrape lib now_utc cl a)) \<longrightarrow>
      reverse r = False \<and> requested_order r = NewestFirst)
   \<and> fst (fetch_loop lib c cutoff its []) =
       concat (map (item_rows lib c) (takeWhile (\<lambda>it. \<not> older cutoff it) its))"
proof -
  have "reverse r = False \<and> requested_order r = NewestFirst"
    if "EvIterMessages r \<in> set (fst (scrape lib now_utc cl a))"
  proof -
    from scrape_request [OF that] obtain entity topic where "r = make_iter_request entity topic"
      by blast
    then show ?thesis by (simp add: make_iter_request_def requested_order_def)
  qed
  then show ?thesis by (simp add: fetch_loop_general)
qed

theorem pagination_newest_first_witness:
  "EvIterMessages (make_iter_request 0 (Some 5))
     \<in> set (fst (scrape sample_lib 15 (sample_client (Inr 0) None) (sample_args ''https://t.me/x/5'')))
   \<and> requested_order (make_iter_request (0::nat) (Some 5)) = NewestFirst"
proof -
  have h: "EvIterMessages (make_iter_request 0 (Some 5))
     \<in> set (fst (scrape sample_lib 15 (sample_client (Inr 0) None) (sample_args ''https://t.me/x/5'')))"
    by code_simp
  from pagination_newest_first [of "make_iter_request 0 (Some 5)" sample_lib 15
      "sample_client (Inr 0) None" "sample_args ''https://t.me/x/5''"] h
  show ?thesis by simp
qed

section \<open>Links of the form https://t.me/slug/segment\<close>

lemma strip_id: "s \<noteq> [] \<Longrightarrow> \<not> py_isspace (hd s) \<Longrightarrow> \<not> py_isspace (last s) \<Longrightarrow> strip s = s"
proof -
  assume a: "s \<noteq> []" "\<not> py_isspace (hd s)" "\<not> py_isspace (last s)"
  then have "dropWhile py_isspace s = s"
    by (cases s) auto
  moreover have "dropWhile py_isspace (rev s) = rev s"
    using a by (cases "rev s") (auto simp: hd_rev)
  ultimately show ?thesis by (simp add: strip_def)
qed

lemma split_on_plain: "c \<notin> set a \<Longrightarrow> split_on c a = [a]"
  by (induction a) auto

lemma split_on_field: "c \<notin> set a \<Longrightarrow> split_on c (a @ c # rest) = a # split_on c rest"
  by (induction a) auto

lemma plain_segmentD:
  assumes "plain_segment s"
  shows "s \<noteq> []" "CHR ''/'' \<notin> set s" "CHR ''?'' \<notin> set s" "CHR ''#'' \<notin> set s"
    "CHR '';'' \<notin> set s" "remove_unsafe s = s"
  using assms by (auto simp: plain_segment_def list_all_iff remove_unsafe_def filter_id_conv)

lemma path_parts_two:
  assumes "plain_segment a" "plain_segment b"
  shows "path_parts (''/'' @ a @ ''/'' @ b) = [a, b]"
proof -
  have "split_on (CHR ''/'') (''/'' @ a @ ''/'' @ b) = [[], a, b]"
    using plain_segmentD(2) [OF assms(1)] plain_segmentD(2) [OF assms(2)]
    by (simp add: split_on_field split_on_plain)
  then show ?thesis
    using plain_segmentD(1) [OF assms(1)] plain_segmentD(1) [OF assms(2)]
    by (simp add: path_parts_def)
qed

lemma urlsplit_tme:
  assumes "remove_unsafe r = r" "CHR ''#'' \<notin> set r" "CHR ''?'' \<notin> set r"
  shows "urlsplit lib (''https://t.me/'' @ r) = Inr (''https'', ''t.me'', CHR ''/'' # r, [], [])"
proof -
  have clean: "remove_unsafe (lstrip_c0 (''https://t.me/'' @ r)) = ''https://t.me/'' @ r"
    using assms(1) by (simp add: lstrip_c0_def remove_unsafe_def)
  have sch: "split_scheme (''https://t.me/'' @ r) = (''https'', ''//t.me/'' @ r)"
    by (simp add: split_scheme_def py_find_def slice_to_def slice_from_def is_ascii_alpha_def
          scheme_chars_def ascii_lower_def Let_def)
  have nl: "splitnetloc (''//t.me/'' @ r) = (''t.me'', CHR ''/'' # r)"
    by (simp add: splitnetloc_def is_netloc_delim_def)
  have br: "check_brackets lib ''t.me'' = None"
    by (simp add: check_brackets_def)
  have two: "take 2 (''//t.me/'' @ r) = ''//''"
    by simp
  have nf: "checknetloc lib ''t.me'' = None"
    by (simp add: checknetloc_def is_ascii_def)
  show ?thesis
    unfolding urlsplit_def clean sch Let_def prod.case two nl
    using assms(2,3) br nf by simp
qed

lemma urlparse_tme:
  assumes "remove_unsafe r = r" "CHR ''#'' \<notin> set r" "CHR ''?'' \<notin> set r"
    "CHR '';'' \<notin> set r"
  shows "urlparse lib (''https://t.me/'' @ r) =
           Inr \<lparr>scheme = ''https'', netloc = ''t.me'', path = CHR ''/'' # r,
                params = [], query = [], fragment = []\<rparr>"
  unfolding urlparse_def urlsplit_tme [OF assms(1-3)]
  using assms(4) by simp

lemma plain_segments_joined:
  assumes "plain_segment a" "plain_segment b"
  shows "remove_unsafe (a @ ''/'' @ b) = a @ ''/'' @ b"
    "CHR ''#'' \<notin> set (a @ ''/'' @ b)" "CHR ''?'' \<notin> set (a @ ''/'' @ b)"
    "CHR '';'' \<notin> set (a @ ''/'' @ b)"
  using plain_segmentD [OF assms(1)] plain_segmentD [OF assms(2)]
  by (simp_all add: remove_unsafe_def)

text \<open>
  The link form of the spec, for every library instance: a link \<^verbatim>\<open>https://t.me/slug/segment\<close>
  with plain segments resolves to the slug, with the topic id that \<^verbatim>\<open>int\<close> reads from the
  segment or none when \<^verbatim>\<open>int\<close> raises. Here \<^verbatim>\<open>urlparse\<close> is evaluated, not assumed.
\<close>

lemma tme_link:
  assumes "plain_segment slug" "plain_segment seg" "\<not> py_isspace (last seg)"
  shows "parse_chat_identifier lib (''https://t.me/'' @ slug @ ''/'' @ seg) None =
           Inr (slug, case py_int lib seg of Inr n \<Rightarrow> Some n | Inl e \<Rightarrow> None)"
proof -
  define r where "r = slug @ ''/'' @ seg"
  have seg: "seg \<noteq> []" using plain_segmentD(1) [OF assms(2)] .
  have last: "last (''https://t.me/'' @ r) = last seg"
    using seg by (simp add: r_def)
  have trimmed: "strip (''https://t.me/'' @ r) = ''https://t.me/'' @ r"
    using assms(3) unfolding last [symmetric]
    by (intro strip_id) (simp_all add: py_isspace_def)
  have url: "is_url (''https://t.me/'' @ r)"
    by (simp add: is_url_def startswith_def)
  have parsed: "urlparse lib (''https://t.me/'' @ r) =
      Inr \<lparr>scheme = ''https'', netloc = ''t.me'', path = CHR ''/'' # r,
           params = [], query = [], fragment = []\<rparr>"
    unfolding r_def using plain_segments_joined [OF assms(1,2)] by (rule urlparse_tme)
  have parts: "path_parts (path \<lparr>scheme = ''https'', netloc = ''t.me'', path = CHR ''/'' # r,
           params = [], query = [], fragment = []\<rparr>) = slug # seg # []"
    using path_parts_two [OF assms(1,2)] by (simp add: r_def)
  have "parse_chat_identifier lib (''https://t.me/'' @ r) None =
          Inr (slug, case py_int lib seg of Inr n \<Rightarrow> Some n | Inl e \<Rightarrow> None)"
    by (rule parse_url_two_absent [of "''https://t.me/'' @ r" lib, unfolded trimmed,
          OF url parsed parts])
  then show ?thesis by (simp add: r_def)
qed

lemma underscores_ok_digits: "list_all is_digit ds \<Longrightarrow> underscores_ok ds"
  by (induction ds rule: underscores_ok.induct) (auto simp: is_digit_def)

lemma py_int_digits:
  assumes "ds \<noteq> []" "list_all is_digit ds" "length ds \<le> 640"
  shows "py_int lib ds = Inr (digits_value ds)"
proof -
  obtain c cs where ds: "ds = c # cs" using assms(1) by (cases ds) auto
  with assms(2) have c: "is_digit c" by simp
  then have nosp: "\<not> int_isspace c" and nosign: "c \<noteq> CHR ''+''" "c \<noteq> CHR ''-''" "c \<noteq> CHR ''_''"
    by (auto simp: is_digit_def int_isspace_def Let_def)
  have t: "dropWhile int_isspace ds = ds" using ds nosp by simp
  have body: "takeWhile (\<lambda>c. is_digit c \<or> c = CHR ''_'') ds = ds"
    using assms(2) by (simp add: list_all_iff takeWhile_eq_all_conv)
  have rest: "dropWhile (\<lambda>c. is_digit c \<or> c = CHR ''_'') ds = []"
    using assms(2) by (simp add: list_all_iff)
  have flt: "filter is_digit ds = ds"
    using assms(2) by (simp add: list_all_iff filter_id_conv)
  have sg: "take 1 ds \<noteq> ''+''" "take 1 ds \<noteq> ''-''" "take 1 ds \<noteq> ''_''"
    using ds nosign by auto
  have u: "(if take 1 ds = ''+'' \<or> take 1 ds = ''-'' then drop 1 ds else ds) = ds"
    using sg by simp
  show ?thesis
    unfolding py_int_def Let_def t u body rest flt
    using sg underscores_ok_digits [OF assms(2)] assms(1,3)
    by simp
qed

lemma digits_plain:
  assumes "ds \<noteq> []" "list_all is_digit ds"
  shows "plain_segment ds \<and> \<not> py_isspace (last ds)"
proof -
  have "is_digit (last ds)"
    using assms by (simp add: list_all_iff)
  then have "\<not> py_isspace (last ds)"
    by (auto simp: is_digit_def py_isspace_def Let_def)
  moreover have "plain_segment ds"
    using assms by (auto simp: plain_segment_def list_all_iff is_digit_def Let_def)
  ultimately show ?thesis by simp
qed

text \<open>
  When the segment is a string of at most 640 decimal digits, the topic id is its value.
\<close>

lemma tme_link_numeric:
  assumes "plain_segment slug" "ds \<noteq> []" "list_all is_digit ds" "length ds \<le> 640"
  shows "parse_chat_identifier lib (''https://t.me/'' @ slug @ ''/'' @ ds) None =
           Inr (slug, Some (digits_value ds))"
  using tme_link [OF assms(1), of ds lib] digits_plain [OF assms(2,3)]
    py_int_digits [OF assms(2-4), of lib]
  by simp

lemma tme_link_example:
  "parse_chat_identifier lib ''https://t.me/durov/142'' None = Inr (''durov'', Some 142)"
proof -
  have "plain_segment ''durov''" "''142'' \<noteq> []" "list_all is_digit ''142''" "length ''142'' \<le> 640"
    by (simp_all add: plain_segment_def is_digit_def)
  from tme_link_numeric [OF this, of lib] show ?thesis
    by (simp add: digits_value_def digit_val_def)
qed

end
